theory Spec2Isabelle
  imports Complex_Main
begin

section \<open>Conventions of the embedding\<close>

text \<open>
  The development embeds the retrieval core of the repository: \<^verbatim>\<open>lib/embeddings.ts\<close>
  (cosine similarity and top-K selection), \<^verbatim>\<open>lib/vectorStore.ts\<close> (the in-memory
  store), \<^verbatim>\<open>lib/chunking.ts\<close> (the chunker) and the search stage of the
  \<^verbatim>\<open>/api/ask\<close> route.

  \<^item> A JavaScript \<^verbatim>\<open>number\<close> that holds a score, a vector component or a timestamp is a
    \<^typ>\<open>real\<close>: exact arithmetic on finite values (no rounding, no NaN, no infinity).
    Counters, lengths and chunk indices are \<^typ>\<open>nat\<close>; the numeric parameters
    \<^verbatim>\<open>topK\<close>, \<^verbatim>\<open>targetWords\<close> and \<^verbatim>\<open>overlapSegments\<close> are \<^typ>\<open>int\<close>, so that zero
    and negative arguments are inputs of the model.
  \<^item> A string is a \<^typ>\<open>string\<close> whose characters are code units below 256.
  \<^item> An optional field is an \<^typ>\<open>'a option\<close>, \<^verbatim>\<open>undefined\<close> being \<^term>\<open>None\<close>.
  \<^item> A thrown \<^verbatim>\<open>Error\<close> is the left summand of a sum type.
  \<^item> The module-level \<^verbatim>\<open>Map\<close> of the vector store is passed explicitly.
  \<^item> A loop that may run forever returns an \<^typ>\<open>'a option\<close>, \<^term>\<open>None\<close> standing
    for "never returns".
  \<^item> Console logging is left out.
\<close>

section \<open>JavaScript library functions\<close>

text \<open>\<^verbatim>\<open>Array.prototype.slice(start, end)\<close>: a negative bound counts from the end, and both
  bounds are clamped to the array.\<close>

definition relIndex :: "nat \<Rightarrow> int \<Rightarrow> nat" where
  "relIndex len k = (if k < 0 then nat (max (int len + k) 0) else min (nat k) len)"

definition slice :: "'a list \<Rightarrow> int \<Rightarrow> int \<Rightarrow> 'a list" where
  "slice xs start end' =
     (let k = relIndex (length xs) start; final = relIndex (length xs) end'
      in take (final - k) (drop k xs))"

text \<open>\<^verbatim>\<open>Array.prototype.sort(compareFn)\<close>. The sort is stable, and for a comparator that is
  consistent (here: a difference of two reals) its result is the one stable arrangement
  in which \<^verbatim>\<open>compareFn(a, b) <= 0\<close> for every \<^verbatim>\<open>a\<close> placed before \<^verbatim>\<open>b\<close>; insertion from the
  right computes that arrangement.\<close>

fun insertBy :: "('a \<Rightarrow> 'a \<Rightarrow> real) \<Rightarrow> 'a \<Rightarrow> 'a list \<Rightarrow> 'a list" where
  "insertBy compareFn x [] = [x]"
| "insertBy compareFn x (y # ys) =
     (if compareFn x y \<le> 0 then x # y # ys else y # insertBy compareFn x ys)"

definition sortBy :: "('a \<Rightarrow> 'a \<Rightarrow> real) \<Rightarrow> 'a list \<Rightarrow> 'a list" where
  "sortBy compareFn xs = foldr (insertBy compareFn) xs []"

text \<open>Template-literal rendering of a non-negative integer.\<close>

definition digitChar :: "nat \<Rightarrow> char" where
  "digitChar d = ''0123456789'' ! d"

fun showNat :: "nat \<Rightarrow> string" where
  "showNat n = (if n < 10 then [digitChar n] else showNat (n div 10) @ [digitChar (n mod 10)])"

declare showNat.simps [simp del]

section \<open>lib/embeddings.ts\<close>

datatype error =
    DimensionsDontMatch nat nat   \<comment> \<open>\<^verbatim>\<open>Embedding dimensions don't match: a vs b\<close>\<close>
  | CountMismatch nat nat         \<comment> \<open>\<^verbatim>\<open>Chunk count (n) doesn't match embedding count (m)\<close>\<close>

text \<open>The two reductions of \<^verbatim>\<open>cosineSimilarity\<close>; \<^verbatim>\<open>reduce\<close> folds from the left.\<close>

definition dotProduct :: "real list \<Rightarrow> real list \<Rightarrow> real" where
  "dotProduct a b = foldl (\<lambda>sum (val, i). sum + val * b ! i) 0 (zip a [0..<length a])"

definition magnitude :: "real list \<Rightarrow> real" where
  "magnitude a = sqrt (foldl (\<lambda>sum val. sum + val * val) 0 a)"

definition cosineSimilarity :: "real list \<Rightarrow> real list \<Rightarrow> error + real" where
  "cosineSimilarity a b =
     (if length a \<noteq> length b then Inl (DimensionsDontMatch (length a) (length b))
      else
        let magnitudeA = magnitude a; magnitudeB = magnitude b
        in if magnitudeA = 0 \<or> magnitudeB = 0 then Inr 0
           else Inr (dotProduct a b / (magnitudeA * magnitudeB)))"

record Match =
  index :: nat
  similarity :: real

text \<open>\<^verbatim>\<open>candidateEmbeddings.map((embedding, index) => ...)\<close>: the first candidate whose
  length differs from the query's aborts the whole map.\<close>

fun similaritiesFrom :: "real list \<Rightarrow> nat \<Rightarrow> real list list \<Rightarrow> error + Match list" where
  "similaritiesFrom queryEmbedding i [] = Inr []"
| "similaritiesFrom queryEmbedding i (embedding # rest) =
     (case cosineSimilarity queryEmbedding embedding of
        Inl e \<Rightarrow> Inl e
      | Inr s \<Rightarrow>
          (case similaritiesFrom queryEmbedding (Suc i) rest of
             Inl e \<Rightarrow> Inl e
           | Inr ms \<Rightarrow> Inr (\<lparr>index = i, similarity = s\<rparr> # ms)))"

definition findSimilarEmbeddings ::
  "real list \<Rightarrow> real list list \<Rightarrow> int \<Rightarrow> error + Match list" where
  "findSimilarEmbeddings queryEmbedding candidateEmbeddings topK =
     (case similaritiesFrom queryEmbedding 0 candidateEmbeddings of
        Inl e \<Rightarrow> Inl e
      | Inr similarities \<Rightarrow>
          Inr (slice (sortBy (\<lambda>a b. similarity b - similarity a) similarities) 0 topK))"

section \<open>lib/vectorStore.ts\<close>

record Metadata =
  videoId :: string
  chunkIndex :: nat
  timestamp :: "real option"
  endTimestamp :: "real option"
  wordCount :: nat
  framePath :: "string option"
  thumbnailPath :: "string option"

record VectorChunk =
  id' :: string
  text' :: string
  embedding :: "real list"
  metadata :: Metadata

text \<open>The result type \<^verbatim>\<open>VectorChunk & { similarity: number }\<close> of a search.\<close>

record ScoredChunk = VectorChunk +
  similarity :: real

definition withSimilarity :: "VectorChunk \<Rightarrow> real \<Rightarrow> ScoredChunk" where
  "withSimilarity c s = VectorChunk.extend c (ScoredChunk.fields s)"

text \<open>The element type of the \<^verbatim>\<open>chunks\<close> parameter of \<^verbatim>\<open>storeChunks\<close>.\<close>

record ChunkInput =
  text' :: string
  timestamp :: "real option"
  endTimestamp :: "real option"
  wordCount :: nat
  index :: nat
  framePath :: "string option"
  thumbnailPath :: "string option"

type_synonym vectorStore = "string \<rightharpoonup> VectorChunk list"

definition toVectorChunk :: "string \<Rightarrow> ChunkInput \<Rightarrow> real list \<Rightarrow> VectorChunk" where
  "toVectorChunk vid chunk emb =
     \<lparr> id' = vid @ ''-'' @ showNat (ChunkInput.index chunk),
       VectorChunk.text' = ChunkInput.text' chunk,
       embedding = emb,
       metadata =
         \<lparr> videoId = vid,
           chunkIndex = ChunkInput.index chunk,
           Metadata.timestamp = ChunkInput.timestamp chunk,
           Metadata.endTimestamp = ChunkInput.endTimestamp chunk,
           Metadata.wordCount = ChunkInput.wordCount chunk,
           Metadata.framePath = ChunkInput.framePath chunk,
           Metadata.thumbnailPath = ChunkInput.thumbnailPath chunk \<rparr> \<rparr>"

text \<open>\<^verbatim>\<open>storeChunks\<close> called without the optional fourth argument (the extra metadata that
  is spread into each record). The only check is the one on the two lengths; past it,
  \<^verbatim>\<open>embeddings[index]\<close> is in range for every chunk.\<close>

definition storeChunks ::
  "vectorStore \<Rightarrow> string \<Rightarrow> ChunkInput list \<Rightarrow> real list list \<Rightarrow> error + vectorStore" where
  "storeChunks store vid chunks embeddings =
     (if length chunks \<noteq> length embeddings
      then Inl (CountMismatch (length chunks) (length embeddings))
      else
        let vectorChunks =
              map (\<lambda>(chunk, i). toVectorChunk vid chunk (embeddings ! i))
                  (zip chunks [0..<length chunks])
        in Inr (store(vid \<mapsto> vectorChunks)))"

definition getChunks :: "vectorStore \<Rightarrow> string \<Rightarrow> VectorChunk list" where
  "getChunks store vid = (case store vid of None \<Rightarrow> [] | Some chunks \<Rightarrow> chunks)"

definition searchSimilar ::
  "vectorStore \<Rightarrow> string \<Rightarrow> real list \<Rightarrow> int \<Rightarrow> error + ScoredChunk list" where
  "searchSimilar store vid queryEmbedding topK =
     (let chunks = getChunks store vid
      in if length chunks = 0 then Inr []
         else
           (case findSimilarEmbeddings queryEmbedding (map embedding chunks) topK of
              Inl e \<Rightarrow> Inl e
            | Inr matches \<Rightarrow>
                Inr (map (\<lambda>match. withSimilarity (chunks ! Match.index match)
                                                  (Match.similarity match))
                         matches)))"

section \<open>The search stage of /api/ask\<close>

text \<open>The element type of \<^verbatim>\<open>similarChunks\<close>, the context handed to \<^verbatim>\<open>generateAnswer\<close>.\<close>

record SimilarChunk =
  text' :: string
  similarity :: real
  timestamp :: "real option"
  embedding :: "real list option"

text \<open>The event \<^verbatim>\<open>{ step: 2, status: 'complete', message, chunkCount, similarities }\<close>.\<close>

record StageEvent =
  step :: nat
  status :: string
  message :: string
  chunkCount :: nat
  similarities :: "real list"

definition toSimilarChunk :: "ScoredChunk \<Rightarrow> SimilarChunk" where
  "toSimilarChunk c =
     \<lparr> SimilarChunk.text' = VectorChunk.text' c,
       SimilarChunk.similarity = ScoredChunk.similarity c,
       SimilarChunk.timestamp = Metadata.timestamp (metadata c),
       SimilarChunk.embedding = Some (VectorChunk.embedding c) \<rparr>"

text \<open>Lines 79 to 107 of the route, the branch taken when the question is not a
  greeting: the search, the filter, and the completion event of step 2. A throwing
  search leaves the branch through the handler's \<^verbatim>\<open>catch\<close>.\<close>

definition searchStage ::
  "vectorStore \<Rightarrow> string \<Rightarrow> real list \<Rightarrow> error + (SimilarChunk list \<times> StageEvent)" where
  "searchStage store vid questionEmbedding =
     (case searchSimilar store vid questionEmbedding 3 of
        Inl e \<Rightarrow> Inl e
      | Inr foundChunks \<Rightarrow>
          let totalChunkCount = length foundChunks;
              similarChunks =
                map toSimilarChunk
                    (filter (\<lambda>c. ScoredChunk.similarity c > 3 / 10) foundChunks)
          in Inr (similarChunks,
                  \<lparr> step = 2,
                    status = ''complete'',
                    message =
                      (if length similarChunks > 0
                       then ''Found '' @ showNat (length similarChunks)
                              @ '' relevant segments via MemVid!''
                       else ''No specific matches found - responding conversationally''),
                    chunkCount = totalChunkCount,
                    similarities = map SimilarChunk.similarity similarChunks \<rparr>))"

section \<open>lib/chunking.ts\<close>

subsection \<open>String helpers\<close>

text \<open>White space as \<^verbatim>\<open>trim\<close> and the class \<^verbatim>\<open>\s\<close> see it among the code units below
  256: tab, line feed, vertical tab, form feed, carriage return, space and the
  no-break space.\<close>

definition isSpace :: "char \<Rightarrow> bool" where
  "isSpace c = (of_char c \<in> {9, 10, 11, 12, 13, 32, 160 :: nat})"

definition trim :: "string \<Rightarrow> string" where
  "trim s = rev (dropWhile isSpace (rev (dropWhile isSpace s)))"

text \<open>\<^verbatim>\<open>s.split(/\s+/)\<close>: every maximal run of white space is one separator; a separator at
  either end leaves an empty string there, and the empty string splits into one empty
  string. The first argument is the piece read so far.\<close>

function splitWs :: "string \<Rightarrow> string \<Rightarrow> string list" where
  "splitWs cur [] = [cur]"
| "splitWs cur (c # cs) =
     (if isSpace c then cur # splitWs [] (dropWhile isSpace cs)
      else splitWs (cur @ [c]) cs)"
  by pat_completeness auto
termination
  by (relation "measure (\<lambda>(cur, s). length s)")
     (auto simp: le_imp_less_Suc length_dropWhile_le)

text \<open>The idiom \<^verbatim>\<open>s.split(/\s+/).filter(w => w.length > 0)\<close>.\<close>

definition wordsOf :: "string \<Rightarrow> string list" where
  "wordsOf s = filter (\<lambda>w. length w > 0) (splitWs [] s)"

text \<open>\<^verbatim>\<open>parts.join(' ')\<close>.\<close>

fun joinSp :: "string list \<Rightarrow> string" where
  "joinSp [] = []"
| "joinSp [x] = x"
| "joinSp (x # y # ys) = x @ '' '' @ joinSp (y # ys)"

text \<open>\<^verbatim>\<open>text.match(/[^.!?]+[.!?]+/g)\<close>, with \<^verbatim>\<open>null\<close> as the empty list. The two character
  classes are complementary, so a match starts at the first character that is no
  terminator, runs through all characters that are none, and needs at least one
  terminator after them, of which it takes all; when the text ends before a terminator
  there is no further match.\<close>

definition isTerminator :: "char \<Rightarrow> bool" where
  "isTerminator c = (c = CHR ''.'' \<or> c = CHR ''!'' \<or> c = CHR ''?'')"

function matchSentences :: "string \<Rightarrow> string list" where
  "matchSentences s =
     (let s' = dropWhile isTerminator s;
          body = takeWhile (\<lambda>c. \<not> isTerminator c) s';
          rest = dropWhile (\<lambda>c. \<not> isTerminator c) s';
          stops = takeWhile isTerminator rest
      in if body = [] \<or> stops = [] then []
         else (body @ stops) # matchSentences (dropWhile isTerminator rest))"
  by pat_completeness auto
termination
proof (relation "measure length", goal_cases)
  case 1
  show ?case by simp
next
  case (2 s s' body rest stops)
  have "length (dropWhile isTerminator rest) \<le> length rest"
    by (rule length_dropWhile_le)
  moreover have "length body + length rest = length s'"
    using 2 by (metis length_append takeWhile_dropWhile_id)
  moreover have "length s' \<le> length s"
    using 2 by (simp add: length_dropWhile_le)
  moreover have "0 < length body"
    using 2 by simp
  ultimately have "length (dropWhile isTerminator rest) < length s"
    by linarith
  then show ?case by simp
qed

declare matchSentences.simps [simp del]

subsection \<open>chunkText\<close>

record Chunk =
  text' :: string
  index :: nat
  startOffset :: nat
  endOffset :: nat
  wordCount :: nat

text \<open>The mutable locals of the sentence loop.\<close>

record LoopState =
  chunks :: "Chunk list"
  currentChunk :: "string list"
  currentWordCount :: nat
  chunkIndex :: nat
  startOffset :: nat

text \<open>The statements that the three places saving the current chunk share: the push with
  \<^verbatim>\<open>chunkIndex++\<close>, and the advance of \<^verbatim>\<open>startOffset\<close> (which the last place, after the
  loop, omits, where it is no longer read).\<close>

definition pushCurrent :: "LoopState \<Rightarrow> LoopState" where
  "pushCurrent st =
     (let chunkText = joinSp (currentChunk st)
      in st\<lparr> chunks := chunks st @
                 [\<lparr> Chunk.text' = chunkText,
                    Chunk.index = LoopState.chunkIndex st,
                    Chunk.startOffset = LoopState.startOffset st,
                    endOffset = LoopState.startOffset st + length chunkText,
                    Chunk.wordCount = currentWordCount st \<rparr>],
              LoopState.chunkIndex := LoopState.chunkIndex st + 1,
              LoopState.startOffset := LoopState.startOffset st + length chunkText + 1 \<rparr>)"

definition chunkStep :: "int \<Rightarrow> LoopState \<Rightarrow> string \<Rightarrow> LoopState" where
  "chunkStep targetWords st sentence =
     (let sentenceWordCount = length (wordsOf (trim sentence))
      in if int sentenceWordCount > targetWords then
           (let st1 = (if length (currentChunk st) > 0
                       then (pushCurrent st)\<lparr> currentChunk := [], currentWordCount := 0 \<rparr>
                       else st)
            in st1\<lparr> chunks := chunks st1 @
                       [\<lparr> Chunk.text' = trim sentence,
                          Chunk.index = LoopState.chunkIndex st1,
                          Chunk.startOffset = LoopState.startOffset st1,
                          endOffset = LoopState.startOffset st1 + length sentence,
                          Chunk.wordCount = sentenceWordCount \<rparr>],
                    LoopState.chunkIndex := LoopState.chunkIndex st1 + 1,
                    LoopState.startOffset := LoopState.startOffset st1 + length sentence + 1 \<rparr>)
         else if int (currentWordCount st) + int sentenceWordCount \<le> targetWords then
           st\<lparr> currentChunk := currentChunk st @ [trim sentence],
               currentWordCount := currentWordCount st + sentenceWordCount \<rparr>
         else
           (let st1 = (if length (currentChunk st) > 0 then pushCurrent st else st)
            in st1\<lparr> currentChunk := [trim sentence],
                    currentWordCount := sentenceWordCount \<rparr>))"

definition initialState :: LoopState where
  "initialState =
     \<lparr> chunks = [], currentChunk = [], currentWordCount = 0,
       LoopState.chunkIndex = 0, LoopState.startOffset = 0 \<rparr>"

definition chunkText :: "string \<Rightarrow> int \<Rightarrow> Chunk list" where
  "chunkText text targetWords =
     (let wordCount = length (wordsOf (trim text))
      in if length text = 0 \<or> length (trim text) = 0 \<or> wordCount = 0 then []
         else
           let sentences = (case matchSentences text of [] \<Rightarrow> [text] | m # ms \<Rightarrow> m # ms);
               st = foldl (chunkStep targetWords) initialState sentences;
               result = (if length (currentChunk st) > 0 then chunks (pushCurrent st)
                         else chunks st)
           in if length result = 0 \<or> list_all (\<lambda>c. Chunk.wordCount c = 0) result then []
              else result)"

subsection \<open>chunkTranscript\<close>

record Segment =
  text' :: string
  offset :: real
  duration :: "real option"

text \<open>The result type \<^verbatim>\<open>Chunk & { timestamp?: number; endTimestamp?: number }\<close>.\<close>

record TimedChunk = Chunk +
  timestamp :: "real option"
  endTimestamp :: "real option"

text \<open>\<^verbatim>\<open>item.duration || 0\<close>.\<close>

definition durationOr0 :: "Segment \<Rightarrow> real" where
  "durationOr0 item = (case duration item of None \<Rightarrow> 0 | Some d \<Rightarrow> d)"

definition combineTranscript :: "Segment list \<Rightarrow> string" where
  "combineTranscript transcript = joinSp (map Segment.text' transcript)"

text \<open>The two search loops of \<^verbatim>\<open>chunkTranscriptSimple\<close>, from \<^verbatim>\<open>textPos\<close> on; running off
  the end of the transcript leaves the timestamp \<^verbatim>\<open>undefined\<close>.\<close>

fun findTimestamp :: "Segment list \<Rightarrow> nat \<Rightarrow> nat \<Rightarrow> real option" where
  "findTimestamp [] textPos chunkStartOffset = None"
| "findTimestamp (item # items) textPos chunkStartOffset =
     (let itemLength = length (Segment.text' item)
      in if textPos \<le> chunkStartOffset \<and> chunkStartOffset < textPos + itemLength
         then Some (offset item / 1000)
         else findTimestamp items (textPos + itemLength + 1) chunkStartOffset)"

fun findEndTimestamp :: "Segment list \<Rightarrow> nat \<Rightarrow> nat \<Rightarrow> real option" where
  "findEndTimestamp [] textPos chunkEndOffset = None"
| "findEndTimestamp (item # items) textPos chunkEndOffset =
     (let itemLength = length (Segment.text' item)
      in if textPos \<le> chunkEndOffset \<and> chunkEndOffset < textPos + itemLength
         then Some ((offset item + durationOr0 item) / 1000)
         else findEndTimestamp items (textPos + itemLength + 1) chunkEndOffset)"

definition withTimestamps :: "Chunk \<Rightarrow> real option \<Rightarrow> real option \<Rightarrow> TimedChunk" where
  "withTimestamps chunk ts ets = Chunk.extend chunk (TimedChunk.fields ts ets)"

definition chunkTranscriptSimple :: "Segment list \<Rightarrow> int \<Rightarrow> TimedChunk list" where
  "chunkTranscriptSimple transcript targetWords =
     (let fullText = combineTranscript transcript;
          textChunks = chunkText fullText targetWords
      in map (\<lambda>chunk.
                withTimestamps chunk
                  (findTimestamp transcript 0 (Chunk.startOffset chunk))
                  (findEndTimestamp transcript 0 (endOffset chunk)))
             textChunks)"

definition SEGMENTS_PER_CHUNK :: int where
  "SEGMENTS_PER_CHUNK = 5"

text \<open>The \<^verbatim>\<open>for\<close> loop of the windowed mode, from the loop variable \<^verbatim>\<open>i\<close> and the array
  \<^verbatim>\<open>chunks\<close> as pushed so far. Nothing in the loop bounds the number of its iterations, so the result
  is an option: \<^term>\<open>None\<close> when the loop never ends.\<close>

partial_function (option) windowLoop ::
  "Segment list \<Rightarrow> int \<Rightarrow> int \<Rightarrow> TimedChunk list \<Rightarrow> TimedChunk list option" where
  "windowLoop transcript OVERLAP i chunks' =
     (if i < int (length transcript) then
        (let chunkSegments = slice transcript i (i + SEGMENTS_PER_CHUNK);
             next = i + (SEGMENTS_PER_CHUNK - OVERLAP)
         in if length chunkSegments = 0 then windowLoop transcript OVERLAP next chunks'
            else
              let text = trim (joinSp (map Segment.text' chunkSegments))
              in if length text < 10 then windowLoop transcript OVERLAP next chunks'
                 else
                   let wordCount = length (wordsOf text);
                       startSegment = hd chunkSegments;
                       endSegment = last chunkSegments;
                       timestamp = offset startSegment / 1000;
                       endTimestamp = (offset endSegment + durationOr0 endSegment) / 1000
                   in windowLoop transcript OVERLAP next
                        (chunks' @
                           [\<lparr> Chunk.text' = text,
                              Chunk.index = length chunks',
                              Chunk.startOffset = 0,
                              endOffset = 0,
                              Chunk.wordCount = wordCount,
                              timestamp = Some timestamp,
                              endTimestamp = Some endTimestamp \<rparr>]))
      else Some chunks')"

definition chunkTranscript ::
  "Segment list \<Rightarrow> int \<Rightarrow> int \<Rightarrow> TimedChunk list option" where
  "chunkTranscript transcript targetWords overlapSegments =
     (if overlapSegments \<le> 0 \<or> length transcript < 10
      then Some (chunkTranscriptSimple transcript targetWords)
      else windowLoop transcript overlapSegments 0 [])"

section \<open>Sample inputs and proof vocabulary\<close>

text \<open>A chunk as the processing route hands it to \<^verbatim>\<open>storeChunks\<close>, a store holding one
  collection under the identifier \<^verbatim>\<open>v\<close>, and a search result of that collection.\<close>

definition exampleChunk :: "nat \<Rightarrow> ChunkInput" where
  "exampleChunk i =
     \<lparr> ChunkInput.text' = ''chunk'', ChunkInput.timestamp = None,
       ChunkInput.endTimestamp = None, ChunkInput.wordCount = 1, ChunkInput.index = i,
       ChunkInput.framePath = None, ChunkInput.thumbnailPath = None \<rparr>"

definition exampleStore :: "nat list \<Rightarrow> real list list \<Rightarrow> vectorStore" where
  "exampleStore indices embeddings =
     [''v'' \<mapsto> map2 (\<lambda>i e. toVectorChunk ''v'' (exampleChunk i) e) indices embeddings]"

definition exampleResult :: "nat \<Rightarrow> real list \<Rightarrow> real \<Rightarrow> ScoredChunk" where
  "exampleResult i e s = withSimilarity (toVectorChunk ''v'' (exampleChunk i) e) s"

text \<open>The two segments of the specification's chunking scenario.\<close>

definition scenarioSegments :: "Segment list" where
  "scenarioSegments =
     [\<lparr> Segment.text' = ''Hello world.'', offset = 0, duration = Some 1000 \<rparr>,
      \<lparr> Segment.text' = ''This is a test.'', offset = 1000, duration = Some 1000 \<rparr>]"

text \<open>A transcript of thirteen one-second segments, long enough for the windowed mode;
  the window over segments 4 to 8 joins to nine characters and is dropped.\<close>

definition exampleSegment :: "string \<Rightarrow> real \<Rightarrow> Segment" where
  "exampleSegment t ms = \<lparr> Segment.text' = t, offset = ms, duration = Some 1000 \<rparr>"

definition exampleTranscript :: "Segment list" where
  "exampleTranscript =
     [exampleSegment ''spoken words'' 0, exampleSegment ''spoken words'' 1000,
      exampleSegment ''spoken words'' 2000, exampleSegment ''spoken words'' 3000,
      exampleSegment ''a'' 4000, exampleSegment ''a'' 5000, exampleSegment ''a'' 6000,
      exampleSegment ''a'' 7000, exampleSegment ''a'' 8000,
      exampleSegment ''spoken words'' 9000, exampleSegment ''spoken words'' 10000,
      exampleSegment ''spoken words'' 11000, exampleSegment ''spoken words'' 12000]"

definition windowChunk :: "string \<Rightarrow> nat \<Rightarrow> nat \<Rightarrow> real \<Rightarrow> real \<Rightarrow> TimedChunk" where
  "windowChunk t i n ts ets =
     \<lparr> Chunk.text' = t, Chunk.index = i, Chunk.startOffset = 0, endOffset = 0,
       Chunk.wordCount = n, timestamp = Some ts, endTimestamp = Some ets \<rparr>"

text \<open>The hand-over of the two processing routes, the only callers of \<^verbatim>\<open>storeChunks\<close>:
  each chunk of \<^verbatim>\<open>chunkTranscript\<close> is passed on with its own fields, the video route
  adding \<^verbatim>\<open>frameMetadata[chunk.index]?.framePath\<close> and the thumbnail path likewise, the
  persona route adding nothing (\<open>noFrames\<close> twice).\<close>

definition withFrames ::
  "(nat \<Rightarrow> string option) \<Rightarrow> (nat \<Rightarrow> string option) \<Rightarrow> TimedChunk \<Rightarrow> ChunkInput" where
  "withFrames framePathOf thumbnailPathOf chunk =
     \<lparr> ChunkInput.text' = Chunk.text' chunk,
       ChunkInput.timestamp = TimedChunk.timestamp chunk,
       ChunkInput.endTimestamp = TimedChunk.endTimestamp chunk,
       ChunkInput.wordCount = Chunk.wordCount chunk,
       ChunkInput.index = Chunk.index chunk,
       ChunkInput.framePath = framePathOf (Chunk.index chunk),
       ChunkInput.thumbnailPath = thumbnailPathOf (Chunk.index chunk) \<rparr>"

definition noFrames :: "nat \<Rightarrow> string option" where
  "noFrames i = None"

text \<open>The chunks of the thirteen-segment transcript, and the store the persona route
  builds from them with three embeddings.\<close>

definition exampleChunks :: "TimedChunk list" where
  "exampleChunks =
     [windowChunk ''spoken words spoken words spoken words spoken words a'' 0 9 0 5,
      windowChunk ''a spoken words spoken words spoken words spoken words'' 1 9 8 13,
      windowChunk ''spoken words'' 2 2 12 13]"

definition pipelineRecord :: "nat \<Rightarrow> real list \<Rightarrow> VectorChunk" where
  "pipelineRecord k e = toVectorChunk ''v'' (withFrames noFrames noFrames (exampleChunks ! k)) e"

definition pipelineStore :: vectorStore where
  "pipelineStore =
     [''v'' \<mapsto> [pipelineRecord 0 [1, 0], pipelineRecord 1 [0, 1], pipelineRecord 2 [1, 0]]]"

text \<open>The order a search leaves its matches in: a higher score first, and among equal
  scores the lower position in the candidate array first.\<close>

definition before :: "Match \<Rightarrow> Match \<Rightarrow> bool" where
  "before a b \<longleftrightarrow> Match.similarity a > Match.similarity b \<or>
     (Match.similarity a = Match.similarity b \<and> Match.index a < Match.index b)"

text \<open>The invariant of the sentence loop of \<^verbatim>\<open>chunkText\<close>.\<close>

definition indexed :: "LoopState \<Rightarrow> bool" where
  "indexed st \<longleftrightarrow> map Chunk.index (chunks st) = [0..<length (chunks st)] \<and>
     LoopState.chunkIndex st = length (chunks st)"

section \<open>Cosine similarity\<close>

lemma foldl_squares: "foldl (\<lambda>sum val. sum + val * val) acc a = acc + (\<Sum>x\<leftarrow>a. x * x)"
  for acc :: real
  by (induction a arbitrary: acc) (simp_all add: add.assoc)

lemma sum_squares_zero_iff: "(\<Sum>x\<leftarrow>a. x * x) = 0 \<longleftrightarrow> (\<forall>x\<in>set a. x = 0)" for a :: "real list"
proof (induction a)
  case Nil
  show ?case by simp
next
  case (Cons y ys)
  have nn: "0 \<le> (\<Sum>x\<leftarrow>ys. x * x)"
    by (rule sum_list_nonneg) auto
  have "y * y + (\<Sum>x\<leftarrow>ys. x * x) = 0 \<longleftrightarrow> y * y = 0 \<and> (\<Sum>x\<leftarrow>ys. x * x) = 0"
    using nn by (simp add: add_nonneg_eq_0_iff)
  with Cons show ?case by simp
qed

lemma magnitude_zero_iff: "magnitude a = 0 \<longleftrightarrow> (\<forall>x\<in>set a. x = 0)"
  by (simp add: magnitude_def foldl_squares sum_squares_zero_iff)

lemma cosineSimilarity_zero:
  "length a = length b \<Longrightarrow> magnitude a = 0 \<or> magnitude b = 0 \<Longrightarrow> cosineSimilarity a b = Inr 0"
  by (auto simp: cosineSimilarity_def Let_def)

lemma cosineSimilarity_Inl:
  "length a \<noteq> length b \<Longrightarrow> cosineSimilarity a b = Inl (DimensionsDontMatch (length a) (length b))"
  by (simp add: cosineSimilarity_def)

lemma cosineSimilarity_Inr:
  "cosineSimilarity a b = Inr s \<Longrightarrow> length a = length b"
  by (auto simp: cosineSimilarity_def split: if_splits)

lemma similaritiesFrom_Inr:
  "similaritiesFrom q i es = Inr ms \<Longrightarrow>
     map Match.index ms = [i..<i + length es] \<and>
     map (\<lambda>m. Inr (Match.similarity m)) ms = map (cosineSimilarity q) es"
proof (induction es arbitrary: i ms)
  case Nil
  then show ?case by simp
next
  case (Cons e es)
  from Cons.prems obtain s ms' where s: "cosineSimilarity q e = Inr s"
    and r: "similaritiesFrom q (Suc i) es = Inr ms'"
    and ms: "ms = \<lparr>Match.index = i, Match.similarity = s\<rparr> # ms'"
    by (auto split: sum.splits)
  have "[i..<i + length (e # es)] = i # [Suc i..<i + length (e # es)]"
    by (rule upt_conv_Cons) simp
  then have "[i..<i + length (e # es)] = i # [Suc i..<Suc i + length es]"
    by simp
  with Cons.IH[OF r] show ?case
    by (simp add: ms s)
qed

lemma cosineSimilarity_total:
  "length a = length b \<Longrightarrow> \<exists>s. cosineSimilarity a b = Inr s"
  by (simp add: cosineSimilarity_def Let_def)

lemma similaritiesFrom_Inl:
  "\<exists>e\<in>set es. length e \<noteq> length q \<Longrightarrow>
     \<exists>n. similaritiesFrom q i es = Inl (DimensionsDontMatch (length q) n) \<and> n \<noteq> length q"
proof (induction es arbitrary: i)
  case Nil
  then show ?case by simp
next
  case (Cons e es)
  show ?case
  proof (cases "length e = length q")
    case False
    then show ?thesis by (auto simp: cosineSimilarity_Inl)
  next
    case True
    then obtain s where s: "cosineSimilarity q e = Inr s"
      using cosineSimilarity_total[of q e] by auto
    from True Cons.prems have "\<exists>e\<in>set es. length e \<noteq> length q" by auto
    from Cons.IH[OF this, of "Suc i"] show ?thesis
      by (auto simp: s)
  qed
qed

lemma similaritiesFrom_total:
  "\<forall>e\<in>set es. length e = length q \<Longrightarrow> \<exists>ms. similaritiesFrom q i es = Inr ms"
proof (induction es arbitrary: i)
  case Nil
  then show ?case by simp
next
  case (Cons e es)
  then obtain s where s: "cosineSimilarity q e = Inr s"
    using cosineSimilarity_total[of q e] by auto
  from Cons obtain ms where "similaritiesFrom q (Suc i) es = Inr ms" by fastforce
  then show ?case by (simp add: s)
qed

lemma slice0: "0 \<le> k \<Longrightarrow> slice xs 0 k = take (nat k) xs"
  by (auto simp: slice_def relIndex_def Let_def min_def)

lemma length_insertBy: "length (insertBy f x ys) = Suc (length ys)"
  by (induction ys) auto

lemma set_insertBy: "set (insertBy f x ys) = insert x (set ys)"
  by (induction ys) auto

lemma length_sortBy: "length (sortBy f xs) = length xs"
  by (induction xs) (auto simp: sortBy_def length_insertBy)

lemma set_sortBy: "set (sortBy f xs) = set xs"
  by (induction xs) (auto simp: sortBy_def set_insertBy)

lemma before_trans: "before a b \<Longrightarrow> before b c \<Longrightarrow> before a c"
  by (auto simp: before_def)

lemma sorted_insertBy:
  "sorted_wrt before ys \<Longrightarrow> \<forall>y\<in>set ys. Match.index x < Match.index y \<Longrightarrow>
   sorted_wrt before (insertBy (\<lambda>a b. Match.similarity b - Match.similarity a) x ys)"
proof (induction ys)
  case Nil
  then show ?case by simp
next
  case (Cons y ys)
  show ?case
  proof (cases "Match.similarity y - Match.similarity x \<le> 0")
    case True
    then have xy: "before x y" using Cons.prems(2) by (auto simp: before_def)
    have "\<forall>z\<in>set ys. before x z"
      using Cons.prems(1) xy by (auto intro: before_trans)
    with True xy Cons.prems(1) show ?thesis by simp
  next
    case False
    then have yx: "before y x" by (auto simp: before_def)
    from False Cons show ?thesis
      by (auto simp: set_insertBy yx)
  qed
qed

lemma sorted_sortBy:
  "sorted_wrt (<) (map Match.index xs) \<Longrightarrow>
   sorted_wrt before (sortBy (\<lambda>a b. Match.similarity b - Match.similarity a) xs)"
proof (induction xs)
  case Nil
  then show ?case by (simp add: sortBy_def)
next
  case (Cons x xs)
  have "sorted_wrt before (insertBy (\<lambda>a b. Match.similarity b - Match.similarity a) x
          (sortBy (\<lambda>a b. Match.similarity b - Match.similarity a) xs))"
  proof (rule sorted_insertBy)
    show "sorted_wrt before (sortBy (\<lambda>a b. Match.similarity b - Match.similarity a) xs)"
      using Cons by simp
    show "\<forall>y\<in>set (sortBy (\<lambda>a b. Match.similarity b - Match.similarity a) xs).
            Match.index x < Match.index y"
      using Cons.prems by (auto simp: set_sortBy)
  qed
  then show ?case by (simp add: sortBy_def)
qed


lemma findSimilarEmbeddings_Inr:
  assumes "findSimilarEmbeddings q es topK = Inr ms"
  shows "sorted_wrt before ms"
    and "\<forall>m\<in>set ms. Match.index m < length es \<and> cosineSimilarity q (es ! Match.index m) = Inr (Match.similarity m)"
    and "0 \<le> topK \<Longrightarrow> int (length ms) \<le> topK"
proof -
  from assms obtain sims where sims: "similaritiesFrom q 0 es = Inr sims"
    and ms: "ms = slice (sortBy (\<lambda>a b. Match.similarity b - Match.similarity a) sims) 0 topK"
    by (auto simp: findSimilarEmbeddings_def split: sum.splits)
  note fr = similaritiesFrom_Inr[OF sims]
  have idx: "map Match.index sims = [0..<length es]" using fr by simp
  then have "sorted_wrt (<) (map Match.index sims)" by simp
  then have "sorted_wrt before (sortBy (\<lambda>a b. Match.similarity b - Match.similarity a) sims)"
    by (rule sorted_sortBy)
  then show "sorted_wrt before ms"
    unfolding ms slice_def Let_def by (simp add: sorted_wrt_take sorted_wrt_drop)
  have "length (map Match.index sims) = length [0..<length es]"
    using idx by simp
  then have len: "length sims = length es" by simp
  have each: "\<forall>m\<in>set sims. Match.index m < length es \<and>
       cosineSimilarity q (es ! Match.index m) = Inr (Match.similarity m)"
  proof
    fix m assume "m \<in> set sims"
    then obtain j where j: "j < length sims" "sims ! j = m" by (auto simp: in_set_conv_nth)
    have "map Match.index sims ! j = [0..<length es] ! j"
      using idx by simp
    then have "Match.index m = j"
      using j len by simp
    moreover have "map (\<lambda>m. Inr (Match.similarity m)) sims ! j = map (cosineSimilarity q) es ! j"
      using fr by simp
    then have "Inr (Match.similarity m) = cosineSimilarity q (es ! j)"
      using j len by simp
    ultimately show "Match.index m < length es \<and>
       cosineSimilarity q (es ! Match.index m) = Inr (Match.similarity m)"
      using j len by simp
  qed
  have "set ms \<subseteq> set (sortBy (\<lambda>a b. Match.similarity b - Match.similarity a) sims)"
    unfolding ms slice_def Let_def
    by (rule subset_trans[OF set_take_subset set_drop_subset])
  then have "set ms \<subseteq> set sims"
    by (simp add: set_sortBy)
  with each show "\<forall>m\<in>set ms. Match.index m < length es \<and> cosineSimilarity q (es ! Match.index m) = Inr (Match.similarity m)"
    by blast
  show "0 \<le> topK \<Longrightarrow> int (length ms) \<le> topK"
    unfolding ms by (simp add: slice0)
qed

text \<open>
  Claim C7. For two vectors of equal length of which at least one has zero norm,
  \<^verbatim>\<open>cosineSimilarity\<close> returns exactly 0 and does not throw; and when the query has zero
  norm, every score that \<^verbatim>\<open>findSimilarEmbeddings\<close> returns is 0. (The norm is zero exactly
  when every component is zero, by \<open>magnitude_zero_iff\<close>.)
\<close>

theorem cosineSimilarity_zero_norm:
  "(length a = length b \<and> (magnitude a = 0 \<or> magnitude b = 0) \<longrightarrow>
      cosineSimilarity a b = Inr 0) \<and>
   (magnitude q = 0 \<and> findSimilarEmbeddings q candidates topK = Inr matches \<longrightarrow>
      (\<forall>m\<in>set matches. Match.similarity m = 0))"
proof (intro conjI impI)
  assume "length a = length b \<and> (magnitude a = 0 \<or> magnitude b = 0)"
  then show "cosineSimilarity a b = Inr 0"
    by (auto simp: cosineSimilarity_zero)
next
  assume h: "magnitude q = 0 \<and> findSimilarEmbeddings q candidates topK = Inr matches"
  show "\<forall>m\<in>set matches. Match.similarity m = 0"
  proof
    fix m assume m: "m \<in> set matches"
    from h findSimilarEmbeddings_Inr(2)[of q candidates topK matches] m
    have c: "cosineSimilarity q (candidates ! Match.index m) = Inr (Match.similarity m)"
      by simp
    then have "length q = length (candidates ! Match.index m)"
      by (rule cosineSimilarity_Inr)
    with h have "cosineSimilarity q (candidates ! Match.index m) = Inr 0"
      by (simp add: cosineSimilarity_zero)
    with c show "Match.similarity m = 0" by simp
  qed
qed

theorem cosineSimilarity_zero_norm_witness:
  "length [0, 0 :: real] = length [3, 4 :: real] \<and> magnitude [0, 0] = 0 \<and>
   cosineSimilarity [0, 0] [3, 4] = Inr 0 \<and>
   findSimilarEmbeddings [0, 0] [[3, 4], [1, 0]] 3
     = Inr [\<lparr>Match.index = 0, Match.similarity = 0\<rparr>,
            \<lparr>Match.index = 1, Match.similarity = 0\<rparr>] \<and>
   Match.similarity \<lparr>Match.index = 0, Match.similarity = 0\<rparr> = 0 \<and>
   Match.similarity \<lparr>Match.index = 1, Match.similarity = 0\<rparr> = 0"
proof -
  have m: "magnitude [0, 0] = 0" by (simp add: magnitude_def)
  have f: "findSimilarEmbeddings [0, 0] [[3, 4], [1, 0]] 3
     = Inr [\<lparr>Match.index = 0, Match.similarity = 0\<rparr>,
            \<lparr>Match.index = 1, Match.similarity = 0\<rparr>]"
    by (simp add: findSimilarEmbeddings_def cosineSimilarity_def m sortBy_def slice_def
        relIndex_def Let_def)
  from cosineSimilarity_zero_norm[of "[0, 0]" "[3, 4]" "[0, 0]" "[[3, 4], [1, 0]]" 3
      "[\<lparr>Match.index = 0, Match.similarity = 0\<rparr>,
        \<lparr>Match.index = 1, Match.similarity = 0\<rparr>]"] m f
  show ?thesis by simp
qed

section \<open>The vector store\<close>

lemma withSimilarity_simps [simp]:
  "ScoredChunk.similarity (withSimilarity c s) = s"
  "metadata (withSimilarity c s) = metadata c"
  "VectorChunk.text' (withSimilarity c s) = VectorChunk.text' c"
  "VectorChunk.embedding (withSimilarity c s) = VectorChunk.embedding c"
  "id' (withSimilarity c s) = id' c"
  by (simp_all add: withSimilarity_def VectorChunk.defs ScoredChunk.defs)

lemma toVectorChunk_simps [simp]:
  "VectorChunk.embedding (toVectorChunk vid c e) = e"
  "Metadata.chunkIndex (metadata (toVectorChunk vid c e)) = ChunkInput.index c"
  by (simp_all add: toVectorChunk_def)

lemma searchSimilar_cases:
  assumes "searchSimilar store vid q topK = Inr results"
  obtains "getChunks store vid = []" "results = []"
  | ms where "getChunks store vid \<noteq> []"
      "findSimilarEmbeddings q (map VectorChunk.embedding (getChunks store vid)) topK = Inr ms"
      "results = map (\<lambda>m. withSimilarity (getChunks store vid ! Match.index m)
                                           (Match.similarity m)) ms"
  using assms by (auto simp: searchSimilar_def Let_def split: if_splits sum.splits)

text \<open>
  Claim C6. A search in a store that holds no collection for the identifier returns the
  empty sequence, not an error, whatever the query embedding and \<^verbatim>\<open>topK\<close> are.
\<close>

theorem searchSimilar_unknown:
  "store vid = None \<Longrightarrow> searchSimilar store vid queryEmbedding topK = Inr []"
  by (simp add: searchSimilar_def getChunks_def)

theorem searchSimilar_unknown_witness:
  "(Map.empty :: vectorStore) ''v'' = None \<and> searchSimilar Map.empty ''v'' [1, 0] 3 = Inr []"
  using searchSimilar_unknown[of Map.empty "''v''" "[1, 0]" 3] by simp

text \<open>
  Claim C10. A search in a non-empty collection whose embeddings all have length \<open>d\<close>,
  with a query embedding of another length, throws the dimension error of
  \<^verbatim>\<open>cosineSimilarity\<close> (raised at the first stored record) and returns no result
  sequence, for every \<^verbatim>\<open>topK\<close>.
\<close>

theorem searchSimilar_dimension_mismatch:
  assumes "store vid = Some records" and "records \<noteq> []"
    and "\<forall>c\<in>set records. length (VectorChunk.embedding c) = d"
    and "length queryEmbedding \<noteq> d"
  shows "searchSimilar store vid queryEmbedding topK
           = Inl (DimensionsDontMatch (length queryEmbedding) d)"
proof -
  from assms(2) obtain c cs where cs: "records = c # cs" by (cases records) auto
  with assms(3) have "length (VectorChunk.embedding c) = d" by simp
  with assms(4) have "cosineSimilarity queryEmbedding (VectorChunk.embedding c)
      = Inl (DimensionsDontMatch (length queryEmbedding) d)"
    by (simp add: cosineSimilarity_def)
  then show ?thesis
    by (simp add: searchSimilar_def getChunks_def assms(1) cs findSimilarEmbeddings_def)
qed

theorem searchSimilar_dimension_mismatch_witness:
  "exampleStore [0, 1] [[1, 0], [0, 1]] ''v''
     = Some [toVectorChunk ''v'' (exampleChunk 0) [1, 0],
             toVectorChunk ''v'' (exampleChunk 1) [0, 1]] \<and>
   searchSimilar (exampleStore [0, 1] [[1, 0], [0, 1]]) ''v'' [1, 0, 0] 3
     = Inl (DimensionsDontMatch 3 2)"
proof -
  have s: "exampleStore [0, 1] [[1, 0], [0, 1]] ''v''
     = Some [toVectorChunk ''v'' (exampleChunk 0) [1, 0],
             toVectorChunk ''v'' (exampleChunk 1) [0, 1]]"
    by (simp add: exampleStore_def)
  from searchSimilar_dimension_mismatch[of "exampleStore [0, 1] [[1, 0], [0, 1]]" "''v''"
      "[toVectorChunk ''v'' (exampleChunk 0) [1, 0],
        toVectorChunk ''v'' (exampleChunk 1) [0, 1]]" 2 "[1, 0, 0]" 3] s
  show ?thesis by simp
qed

subsection \<open>storeChunks\<close>

lemma map_zip_upt_nth:
  "length xs = length ys \<Longrightarrow>
   map (\<lambda>(x, i). f x (ys ! i)) (zip xs [0..<length xs]) = map2 f xs ys"
  by (rule nth_equalityI) simp_all

lemma storeChunks_Inr:
  assumes "length inputs = length embeddings"
  shows "storeChunks store vid inputs embeddings
     = Inr (store(vid \<mapsto> map2 (toVectorChunk vid) inputs embeddings))"
proof -
  have m: "map (\<lambda>(chunk, i). toVectorChunk vid chunk (embeddings ! i))
             (zip inputs [0..<length inputs])
           = map2 (toVectorChunk vid) inputs embeddings"
    using assms by (rule map_zip_upt_nth)
  show ?thesis
    unfolding storeChunks_def Let_def m using assms by simp
qed

lemma embedding_map2_toVectorChunk:
  "length inputs = length embeddings \<Longrightarrow>
   map VectorChunk.embedding (map2 (toVectorChunk vid) inputs embeddings) = embeddings"
  by (induction inputs embeddings rule: list_induct2) simp_all

lemma chunkIndex_map2_toVectorChunk:
  "length inputs = length embeddings \<Longrightarrow>
   map (\<lambda>c. Metadata.chunkIndex (metadata c)) (map2 (toVectorChunk vid) inputs embeddings)
     = map ChunkInput.index inputs"
  by (induction inputs embeddings rule: list_induct2) simp_all

text \<open>
  Claim C4, as amended. \<^verbatim>\<open>storeChunks\<close> compares the number of chunks with the number of
  embeddings and nothing else: it throws exactly when the two counts differ. For inputs
  of equal length it never throws, whatever the dimensions of the embeddings are; it
  installs the records for the identifier, with the embeddings and the chunk indices as
  they were given, and leaves every other collection as it was.
\<close>

theorem storeChunks_checks_count_only:
  "((\<exists>e. storeChunks store vid inputs embeddings = Inl e) \<longleftrightarrow>
      length inputs \<noteq> length embeddings) \<and>
   (length inputs = length embeddings \<longrightarrow>
     (\<exists>store'. storeChunks store vid inputs embeddings = Inr store' \<and>
        map VectorChunk.embedding (getChunks store' vid) = embeddings \<and>
        map (\<lambda>c. Metadata.chunkIndex (metadata c)) (getChunks store' vid)
          = map ChunkInput.index inputs \<and>
        (\<forall>v. v \<noteq> vid \<longrightarrow> store' v = store v)))"
proof (cases "length inputs = length embeddings")
  case True
  have g: "getChunks (store(vid \<mapsto> records)) vid = records" for records
    by (simp add: getChunks_def)
  from True embedding_map2_toVectorChunk[OF True, of vid]
    chunkIndex_map2_toVectorChunk[OF True, of vid]
  show ?thesis
    by (simp add: storeChunks_Inr[OF True] g)
next
  case False
  then show ?thesis by (simp add: storeChunks_def)
qed

theorem storeChunks_checks_count_only_witness:
  "length [exampleChunk 0, exampleChunk 1] = length [[1], [1, 2 :: real]] \<and>
   \<not> (\<exists>e. storeChunks Map.empty ''v'' [exampleChunk 0, exampleChunk 1] [[1], [1, 2]] = Inl e) \<and>
   (\<exists>store'. storeChunks Map.empty ''v'' [exampleChunk 0, exampleChunk 1] [[1], [1, 2]]
                = Inr store' \<and>
      map VectorChunk.embedding (getChunks store' ''v'') = [[1], [1, 2]])"
  using storeChunks_checks_count_only
          [of Map.empty "''v''" "[exampleChunk 0, exampleChunk 1]" "[[1], [1, 2]]"]
  by auto

text \<open>The claim as stated fails: two embeddings of dimensions 1 and 2 are stored without
  an error.\<close>

theorem storeChunks_mixed_dimensions_counterexample:
  "length [exampleChunk 0, exampleChunk 1] = length [[1], [1, 2 :: real]] \<and>
   length [1 :: real] \<noteq> length [1, 2 :: real] \<and>
   storeChunks Map.empty ''v'' [exampleChunk 0, exampleChunk 1] [[1], [1, 2]]
     = Inr (exampleStore [0, 1] [[1], [1, 2]])"
  by (simp add: storeChunks_def exampleStore_def Let_def upt_rec)

section \<open>The search stage of /api/ask\<close>

lemma toSimilarChunk_similarity [simp]:
  "SimilarChunk.similarity (toSimilarChunk c) = ScoredChunk.similarity c"
  by (simp add: toSimilarChunk_def)

text \<open>
  Claim C9, as amended. In the search stage a returned match is included in the
  grounding context if and only if its similarity is strictly greater than 0.3 (the
  filter is \<^verbatim>\<open>c.similarity > 0.3\<close>, so a match scoring exactly 0.3 is left out), and the
  \<^verbatim>\<open>chunkCount\<close> of the completion event is the number of matches the search returned,
  those left out of the context included.
\<close>

theorem searchStage_threshold:
  assumes "searchSimilar store vid questionEmbedding 3 = Inr foundChunks"
  shows "\<exists>similarChunks event.
           searchStage store vid questionEmbedding = Inr (similarChunks, event) \<and>
           similarChunks = map toSimilarChunk (filter (\<lambda>c. ScoredChunk.similarity c > 3 / 10) foundChunks) \<and>
           (\<forall>c\<in>set foundChunks. toSimilarChunk c \<in> set similarChunks \<longleftrightarrow> ScoredChunk.similarity c > 3 / 10) \<and>
           chunkCount event = length foundChunks"
proof -
  have "toSimilarChunk c \<in> set (map toSimilarChunk (filter (\<lambda>c. ScoredChunk.similarity c > 3 / 10) foundChunks))
        \<longleftrightarrow> ScoredChunk.similarity c > 3 / 10" if "c \<in> set foundChunks" for c
  proof
    assume "toSimilarChunk c \<in> set (map toSimilarChunk (filter (\<lambda>c. ScoredChunk.similarity c > 3 / 10) foundChunks))"
    then obtain c' where c': "ScoredChunk.similarity c' > 3 / 10" "toSimilarChunk c = toSimilarChunk c'"
      by auto
    from c'(2) have "SimilarChunk.similarity (toSimilarChunk c) = SimilarChunk.similarity (toSimilarChunk c')"
      by simp
    with c'(1) show "ScoredChunk.similarity c > 3 / 10" by simp
  next
    assume "ScoredChunk.similarity c > 3 / 10"
    with that show "toSimilarChunk c \<in> set (map toSimilarChunk (filter (\<lambda>c. ScoredChunk.similarity c > 3 / 10) foundChunks))"
      by auto
  qed
  then show ?thesis
    by (simp add: searchStage_def assms Let_def)
qed

theorem searchStage_threshold_witness:
  "searchSimilar (exampleStore [0, 1] [[1, 0], [0, 1]]) ''v'' [1, 0] 3
     = Inr [exampleResult 0 [1, 0] 1, exampleResult 1 [0, 1] 0] \<and>
   searchStage (exampleStore [0, 1] [[1, 0], [0, 1]]) ''v'' [1, 0]
     = Inr ([toSimilarChunk (exampleResult 0 [1, 0] 1)],
            \<lparr> step = 2, status = ''complete'',
              message = ''Found 1 relevant segments via MemVid!'',
              chunkCount = 2, similarities = [1] \<rparr>)"
proof -
  have run: "searchSimilar (exampleStore [0, 1] [[1, 0], [0, 1]]) ''v'' [1, 0] 3
     = Inr [exampleResult 0 [1, 0] 1, exampleResult 1 [0, 1] 0]"
    by (simp add: exampleStore_def searchSimilar_def getChunks_def
      findSimilarEmbeddings_def cosineSimilarity_def magnitude_def dotProduct_def
      sortBy_def slice_def relIndex_def exampleResult_def Let_def upt_rec)
  from searchStage_threshold[OF run] obtain similarChunks event where
    st: "searchStage (exampleStore [0, 1] [[1, 0], [0, 1]]) ''v'' [1, 0] = Inr (similarChunks, event)"
    and ctx: "similarChunks = map toSimilarChunk
        (filter (\<lambda>c. ScoredChunk.similarity c > 3 / 10)
           [exampleResult 0 [1, 0] 1, exampleResult 1 [0, 1] 0])"
    and cnt: "chunkCount event = length [exampleResult 0 [1, 0] 1, exampleResult 1 [0, 1] 0]"
    by blast
  have "searchStage (exampleStore [0, 1] [[1, 0], [0, 1]]) ''v'' [1, 0]
     = Inr ([toSimilarChunk (exampleResult 0 [1, 0] 1)],
            \<lparr> step = 2, status = ''complete'',
              message = ''Found 1 relevant segments via MemVid!'',
              chunkCount = 2, similarities = [1] \<rparr>)"
    unfolding searchStage_def run
    by (simp add: exampleResult_def showNat.simps[of "Suc 0"] digitChar_def)
  with run st ctx cnt show ?thesis by simp
qed

text \<open>The claim as stated fails at the threshold itself: the stored embedding
  \<open>(3, 9, 3, 1)\<close> has norm 10 and scores exactly 0.3 against the query \<open>(1, 0, 0, 0)\<close>;
  the match is not below the threshold, and the context is empty.\<close>

theorem searchStage_threshold_counterexample:
  "searchSimilar (exampleStore [0] [[3, 9, 3, 1]]) ''v'' [1, 0, 0, 0] 3
     = Inr [exampleResult 0 [3, 9, 3, 1] (3 / 10)] \<and>
   \<not> ScoredChunk.similarity (exampleResult 0 [3, 9, 3, 1] (3 / 10)) < 3 / 10 \<and>
   searchStage (exampleStore [0] [[3, 9, 3, 1]]) ''v'' [1, 0, 0, 0]
     = Inr ([], \<lparr> step = 2, status = ''complete'',
                  message = ''No specific matches found - responding conversationally'',
                  chunkCount = 1, similarities = [] \<rparr>)"
proof -
  have run: "searchSimilar (exampleStore [0] [[3, 9, 3, 1]]) ''v'' [1, 0, 0, 0] 3
     = Inr [exampleResult 0 [3, 9, 3, 1] (3 / 10)]"
    by (simp add: exampleStore_def searchSimilar_def getChunks_def
      findSimilarEmbeddings_def cosineSimilarity_def magnitude_def dotProduct_def
      sortBy_def slice_def relIndex_def exampleResult_def Let_def upt_rec)
  then show ?thesis
    by (simp add: searchStage_def exampleResult_def)
qed

section \<open>The chunker\<close>

subsection \<open>The two sample inputs, evaluated\<close>

lemma chunkText_scenario:
  "chunkText ''Hello world. This is a test.'' 500 =
     [\<lparr> Chunk.text' = ''Hello world. This is a test.'', Chunk.index = 0,
        Chunk.startOffset = 0, endOffset = 28, Chunk.wordCount = 6 \<rparr>]"
  by code_simp

lemma combine_scenario:
  "combineTranscript scenarioSegments = ''Hello world. This is a test.''"
  by (simp add: combineTranscript_def scenarioSegments_def)

lemma trim_window_0: "trim ''spoken words spoken words spoken words spoken words a'' = ''spoken words spoken words spoken words spoken words a''"
  by code_simp
lemma words_window_0: "length (wordsOf ''spoken words spoken words spoken words spoken words a'') = 9"
  by code_simp
lemma trim_window_4: "trim ''a a a a a'' = ''a a a a a''"
  by code_simp
lemma trim_window_8: "trim ''a spoken words spoken words spoken words spoken words'' = ''a spoken words spoken words spoken words spoken words''"
  by code_simp
lemma words_window_8: "length (wordsOf ''a spoken words spoken words spoken words spoken words'') = 9"
  by code_simp
lemma trim_window_12: "trim ''spoken words'' = ''spoken words''"
  by code_simp
lemma words_window_12: "length (wordsOf ''spoken words'') = 2"
  by code_simp

lemma windowed_example:
  "chunkTranscript exampleTranscript 500 1 =
     Some [windowChunk ''spoken words spoken words spoken words spoken words a'' 0 9 0 5,
           windowChunk ''a spoken words spoken words spoken words spoken words'' 1 9 8 13,
           windowChunk ''spoken words'' 2 2 12 13]"
  unfolding chunkTranscript_def exampleTranscript_def
  apply (simp del: One_nat_def)
  apply (subst windowLoop.simps)
  apply (simp add: slice_def relIndex_def SEGMENTS_PER_CHUNK_def exampleSegment_def trim_window_0 words_window_0 durationOr0_def Let_def)
  apply (subst windowLoop.simps)
  apply (simp add: slice_def relIndex_def SEGMENTS_PER_CHUNK_def exampleSegment_def trim_window_4 durationOr0_def Let_def)
  apply (subst windowLoop.simps)
  apply (simp add: slice_def relIndex_def SEGMENTS_PER_CHUNK_def exampleSegment_def trim_window_8 words_window_8 durationOr0_def Let_def)
  apply (subst windowLoop.simps)
  apply (simp add: slice_def relIndex_def SEGMENTS_PER_CHUNK_def exampleSegment_def trim_window_12 words_window_12 durationOr0_def Let_def)
  apply (subst windowLoop.simps)
  apply (simp add: windowChunk_def)
  done

text \<open>
  Claim C3. On the two segments of the scenario, with \<^verbatim>\<open>targetWords = 500\<close>, the simple mode
  returns one chunk holding both sentences, with start timestamp 0. Its end timestamp
  is \<^verbatim>\<open>undefined\<close>, not 2.0: the chunk's \<^verbatim>\<open>endOffset\<close> is 28, the length of the combined
  text, and the loop that looks for the end timestamp wants a segment with
  \<^verbatim>\<open>chunkEndOffset < textPos + itemLength\<close>, which for the last segment reads \<open>28 < 13 + 15\<close>.
\<close>

theorem scenario_end_timestamp_undefined:
  "chunkTranscript scenarioSegments 500 1 =
     Some [\<lparr> Chunk.text' = ''Hello world. This is a test.'', Chunk.index = 0,
             Chunk.startOffset = 0, endOffset = 28, Chunk.wordCount = 6,
             timestamp = Some 0, endTimestamp = None \<rparr>]"
  unfolding chunkTranscript_def chunkTranscriptSimple_def Let_def combine_scenario
    chunkText_scenario
  by (simp add: scenarioSegments_def withTimestamps_def Chunk.defs TimedChunk.defs)

subsection \<open>Chunk indices\<close>

lemma indexed_pushCurrent: "indexed st \<Longrightarrow> indexed (pushCurrent st)"
  by (simp add: indexed_def pushCurrent_def Let_def)

lemma indexed_chunkStep: "indexed st \<Longrightarrow> indexed (chunkStep targetWords st sentence)"
  by (auto simp: indexed_def chunkStep_def pushCurrent_def Let_def)

lemma indexed_foldl:
  "indexed st \<Longrightarrow> indexed (foldl (chunkStep targetWords) st sentences)"
  by (induction sentences arbitrary: st) (simp_all add: indexed_chunkStep)

lemma chunkText_index:
  "map Chunk.index (chunkText text targetWords) = [0..<length (chunkText text targetWords)]"
proof -
  have i0: "indexed initialState" by (simp add: indexed_def initialState_def)
  have fin: "map Chunk.index (if length (currentChunk st) > 0 then chunks (pushCurrent st) else chunks st)
      = [0..<length (if length (currentChunk st) > 0 then chunks (pushCurrent st) else chunks st)]"
    if "indexed st" for st
    using that indexed_pushCurrent[OF that] by (simp add: indexed_def)
  show ?thesis
    unfolding chunkText_def Let_def
    using fin[OF indexed_foldl[OF i0]] by simp
qed

lemma withTimestamps_index [simp]: "Chunk.index (withTimestamps c a b) = Chunk.index c"
  by (simp add: withTimestamps_def Chunk.defs TimedChunk.defs)

lemma chunkTranscriptSimple_index:
  "map Chunk.index (chunkTranscriptSimple transcript targetWords)
     = [0..<length (chunkTranscriptSimple transcript targetWords)]"
  using chunkText_index[of "combineTranscript transcript" targetWords]
  by (simp add: chunkTranscriptSimple_def Let_def comp_def)

lemma windowLoop_index:
  assumes "windowLoop transcript overlap i acc = Some result"
    and "map Chunk.index acc = [0..<length acc]"
  shows "map Chunk.index result = [0..<length result]"
proof -
  have "map Chunk.index acc = [0..<length acc] \<longrightarrow>
        map Chunk.index result = [0..<length result]"
  proof (rule windowLoop.raw_induct[where P = "\<lambda>t ov i acc result.
           map Chunk.index acc = [0..<length acc] \<longrightarrow>
           map Chunk.index result = [0..<length result]", OF _ assms(1)], goal_cases)
    case (1 loop t ov i acc result)
    show ?case
    proof
      assume acc: "map Chunk.index acc = [0..<length acc]"
      show "map Chunk.index result = [0..<length result]"
      proof (cases "i < int (length t)")
        case False
        with 1(2) acc show ?thesis by simp
      next
        case True
        with 1(2) have
          "loop t ov (i + (SEGMENTS_PER_CHUNK - ov)) acc = Some result \<or>
           (\<exists>c. loop t ov (i + (SEGMENTS_PER_CHUNK - ov)) (acc @ [c]) = Some result \<and>
                Chunk.index c = length acc)"
          by (auto simp: Let_def split: if_splits)
        then consider
            "loop t ov (i + (SEGMENTS_PER_CHUNK - ov)) acc = Some result"
          | c where "Chunk.index c = length acc"
              "loop t ov (i + (SEGMENTS_PER_CHUNK - ov)) (acc @ [c]) = Some result"
          by blast
        then show ?thesis
        proof cases
          case 1
          with \<open>\<And>t ov i acc result. loop t ov i acc = Some result \<Longrightarrow> _\<close> acc
          show ?thesis by blast
        next
          case (2 c)
          have "map Chunk.index (acc @ [c]) = [0..<length (acc @ [c])]"
            using acc 2(1) by simp
          with 2(2) \<open>\<And>t ov i acc result. loop t ov i acc = Some result \<Longrightarrow> _\<close>
          show ?thesis by blast
        qed
      qed
    qed
  qed
  with assms(2) show ?thesis by simp
qed

text \<open>
  Claim C8. The chunks that \<^verbatim>\<open>chunkText\<close> returns carry the indices \<open>0, \<dots>, N - 1\<close> in
  output order, and so do the chunks of every result of \<^verbatim>\<open>chunkTranscript\<close>, in the
  simple mode and in the windowed mode, whichever sentences or windows were dropped.
\<close>

theorem chunk_index_contiguous:
  "map Chunk.index (chunkText text targetWords) = [0..<length (chunkText text targetWords)] \<and>
   (\<forall>result. chunkTranscript transcript targetWords overlapSegments = Some result \<longrightarrow>
      map Chunk.index result = [0..<length result])"
proof (intro conjI allI impI)
  show "map Chunk.index (chunkText text targetWords) = [0..<length (chunkText text targetWords)]"
    by (rule chunkText_index)
next
  fix result
  assume r: "chunkTranscript transcript targetWords overlapSegments = Some result"
  show "map Chunk.index result = [0..<length result]"
  proof (cases "overlapSegments \<le> 0 \<or> length transcript < 10")
    case True
    with r have "result = chunkTranscriptSimple transcript targetWords"
      by (auto simp: chunkTranscript_def)
    then show ?thesis by (simp only: chunkTranscriptSimple_index)
  next
    case False
    with r have "windowLoop transcript overlapSegments 0 [] = Some result"
      by (simp add: chunkTranscript_def)
    then show ?thesis by (rule windowLoop_index) simp
  qed
qed

theorem chunk_index_contiguous_witness:
  "chunkTranscript exampleTranscript 500 1 =
     Some [windowChunk ''spoken words spoken words spoken words spoken words a'' 0 9 0 5,
           windowChunk ''a spoken words spoken words spoken words spoken words'' 1 9 8 13,
           windowChunk ''spoken words'' 2 2 12 13] \<and>
   map Chunk.index
     [windowChunk ''spoken words spoken words spoken words spoken words a'' 0 9 0 5,
      windowChunk ''a spoken words spoken words spoken words spoken words'' 1 9 8 13,
      windowChunk ''spoken words'' 2 2 12 13] = [0, 1, 2] \<and>
   map Chunk.index (chunkText ''Hello world. This is a test.'' 500) = [0]"
  using chunk_index_contiguous[of "''Hello world. This is a test.''" 500 exampleTranscript 1]
    windowed_example
  by (simp add: chunkText_scenario upt_rec)

subsection \<open>Termination of the windowed mode\<close>

lemma windowLoop_returns:
  assumes "0 < SEGMENTS_PER_CHUNK - overlap"
  shows "\<exists>result. windowLoop transcript overlap i acc = Some result"
proof (induction "nat (int (length transcript) - i)" arbitrary: i acc rule: less_induct)
  case less
  show ?case
  proof (cases "i < int (length transcript)")
    case False
    then show ?thesis by (subst windowLoop.simps) simp
  next
    case True
    with assms have "nat (int (length transcript) - (i + (SEGMENTS_PER_CHUNK - overlap)))
        < nat (int (length transcript) - i)"
      by simp
    from less[OF this] have
      "\<exists>result. windowLoop transcript overlap (i + (SEGMENTS_PER_CHUNK - overlap)) acc' = Some result"
      for acc' by simp
    then show ?thesis
      by (subst windowLoop.simps) (simp add: Let_def)
  qed
qed

lemma windowLoop_diverges:
  assumes "SEGMENTS_PER_CHUNK - overlap \<le> 0" and "i < int (length transcript)"
  shows "windowLoop transcript overlap i acc = None"
proof (rule ccontr)
  assume "windowLoop transcript overlap i acc \<noteq> None"
  then obtain result where r: "windowLoop transcript overlap i acc = Some result" by auto
  have "\<not> (SEGMENTS_PER_CHUNK - overlap \<le> 0 \<and> i < int (length transcript))"
  proof (rule windowLoop.raw_induct[where P = "\<lambda>t ov i acc result.
           \<not> (SEGMENTS_PER_CHUNK - ov \<le> 0 \<and> i < int (length t))", OF _ r], goal_cases)
    case (1 loop t ov i acc result)
    show ?case
    proof
      assume bad: "SEGMENTS_PER_CHUNK - ov \<le> 0 \<and> i < int (length t)"
      with 1(2) have "\<exists>acc'. loop t ov (i + (SEGMENTS_PER_CHUNK - ov)) acc' = Some result"
        by (auto simp: Let_def split: if_splits)
      then obtain acc' where "loop t ov (i + (SEGMENTS_PER_CHUNK - ov)) acc' = Some result" ..
      from 1(1)[OF this] bad show False by simp
    qed
  qed
  with assms show False by simp
qed

text \<open>
  Claim C2, as amended. The stride of the window loop is \<^verbatim>\<open>5 - overlapSegments\<close> as it
  stands; no overlap is clamped. For a transcript of at least 10 segments and
  \<^verbatim>\<open>overlapSegments > 0\<close>, \<^verbatim>\<open>chunkTranscript\<close> returns if and only if
  \<^verbatim>\<open>overlapSegments < 5\<close>, that is, for the strides 1 to 4.
\<close>

theorem chunkTranscript_returns_iff:
  assumes "10 \<le> length transcript" and "0 < overlapSegments"
  shows "(\<exists>result. chunkTranscript transcript targetWords overlapSegments = Some result)
           \<longleftrightarrow> overlapSegments < 5"
proof (cases "overlapSegments < 5")
  case True
  then have "0 < SEGMENTS_PER_CHUNK - overlapSegments" by (simp add: SEGMENTS_PER_CHUNK_def)
  from windowLoop_returns[OF this] True assms show ?thesis
    by (simp add: chunkTranscript_def)
next
  case False
  then have "SEGMENTS_PER_CHUNK - overlapSegments \<le> 0" by (simp add: SEGMENTS_PER_CHUNK_def)
  moreover have "0 < int (length transcript)" using assms(1) by linarith
  ultimately have "windowLoop transcript overlapSegments 0 [] = None"
    by (rule windowLoop_diverges)
  with False assms show ?thesis by (simp add: chunkTranscript_def)
qed

theorem chunkTranscript_returns_iff_witness:
  "10 \<le> length exampleTranscript \<and> (0::int) < 1 \<and>
   ((\<exists>result. chunkTranscript exampleTranscript 500 1 = Some result) \<longleftrightarrow> (1::int) < 5)"
  using chunkTranscript_returns_iff[of exampleTranscript 1 500]
  by (simp add: exampleTranscript_def)

text \<open>The claim as stated fails for an overlap of 5 on the thirteen-segment transcript:
  the stride is 0 and the loop never ends.\<close>

theorem chunkTranscript_overlap_five_counterexample:
  "10 \<le> length exampleTranscript \<and> (0::int) < 5 \<and>
   chunkTranscript exampleTranscript 500 5 = None"
proof -
  have "windowLoop exampleTranscript 5 0 [] = None"
    by (rule windowLoop_diverges) (simp_all add: SEGMENTS_PER_CHUNK_def exampleTranscript_def)
  then show ?thesis by (simp add: chunkTranscript_def exampleTranscript_def)
qed

section \<open>Search over a stored corpus\<close>

lemma chunkTranscript_index:
  assumes "chunkTranscript transcript targetWords overlapSegments = Some result"
  shows "map Chunk.index result = [0..<length result]"
proof (cases "overlapSegments \<le> 0 \<or> length transcript < 10")
  case True
  with assms have "result = chunkTranscriptSimple transcript targetWords"
    by (auto simp: chunkTranscript_def)
  then show ?thesis by (simp only: chunkTranscriptSimple_index)
next
  case False
  with assms have "windowLoop transcript overlapSegments 0 [] = Some result"
    by (simp add: chunkTranscript_def)
  then show ?thesis by (rule windowLoop_index) simp
qed

lemma storeChunks_Inr_length:
  "storeChunks store0 vid inputs embeddings = Inr store \<Longrightarrow> length inputs = length embeddings"
  by (auto simp: storeChunks_def split: if_splits)

lemma pipeline_chunk_indices:
  assumes "chunkTranscript transcript targetWords overlapSegments = Some chunkList"
    and "storeChunks store0 vid (map (withFrames framePathOf thumbnailPathOf) chunkList) embeddings
           = Inr store"
  shows "map (\<lambda>c. Metadata.chunkIndex (metadata c)) (getChunks store vid)
           = [0..<length chunkList]"
proof -
  let ?inputs = "map (withFrames framePathOf thumbnailPathOf) chunkList"
  have len: "length ?inputs = length embeddings"
    using assms(2) by (rule storeChunks_Inr_length)
  have "store = store0(vid \<mapsto> map2 (toVectorChunk vid) ?inputs embeddings)"
    using assms(2) storeChunks_Inr[OF len, of store0 vid] by simp
  then have "getChunks store vid = map2 (toVectorChunk vid) ?inputs embeddings"
    by (simp add: getChunks_def)
  then have "map (\<lambda>c. Metadata.chunkIndex (metadata c)) (getChunks store vid)
      = map ChunkInput.index ?inputs"
    using chunkIndex_map2_toVectorChunk[OF len, of vid] by simp
  also have "\<dots> = map Chunk.index chunkList"
    by (simp add: withFrames_def comp_def)
  also have "\<dots> = [0..<length chunkList]"
    using assms(1) by (rule chunkTranscript_index)
  finally show ?thesis .
qed

lemma searchSimilar_matches:
  assumes "searchSimilar store vid q topK = Inr results"
  shows "\<exists>matches.
           results = map (\<lambda>m. withSimilarity (getChunks store vid ! Match.index m)
                                               (Match.similarity m)) matches \<and>
           sorted_wrt before matches \<and>
           list_all (\<lambda>m. Match.index m < length (getChunks store vid)) matches"
  using assms
proof (cases rule: searchSimilar_cases)
  case 1
  then show ?thesis by (intro exI[of _ "[]"]) simp
next
  case (2 ms)
  note f = findSimilarEmbeddings_Inr[OF 2(2)]
  from f(2) have "list_all (\<lambda>m. Match.index m < length (getChunks store vid)) ms"
    by (simp add: list_all_iff)
  with 2(3) f(1) show ?thesis by blast
qed

lemma ties_ascending:
  assumes "sorted_wrt before matches"
    and "list_all (\<lambda>m. Match.index m < length records) matches"
    and "sorted_wrt (<) (map (\<lambda>c. Metadata.chunkIndex (metadata c)) records)"
  shows "sorted_wrt (\<lambda>a b. ScoredChunk.similarity a = ScoredChunk.similarity b \<longrightarrow>
                       Metadata.chunkIndex (metadata a) < Metadata.chunkIndex (metadata b))
           (map (\<lambda>m. withSimilarity (records ! Match.index m) (Match.similarity m)) matches)"
proof -
  have "sorted_wrt (\<lambda>a b. Match.similarity a = Match.similarity b \<longrightarrow>
            Metadata.chunkIndex (metadata (records ! Match.index a))
              < Metadata.chunkIndex (metadata (records ! Match.index b))) matches"
  proof (rule sorted_wrt_mono_rel[OF _ assms(1)])
    fix a b
    assume b: "b \<in> set matches" and ab: "before a b"
    show "Match.similarity a = Match.similarity b \<longrightarrow>
            Metadata.chunkIndex (metadata (records ! Match.index a))
              < Metadata.chunkIndex (metadata (records ! Match.index b))"
    proof
      assume "Match.similarity a = Match.similarity b"
      with ab have lt: "Match.index a < Match.index b" by (simp add: before_def)
      have bl: "Match.index b < length records" using assms(2) b by (simp add: list_all_iff)
      with lt have "map (\<lambda>c. Metadata.chunkIndex (metadata c)) records ! Match.index a
                < map (\<lambda>c. Metadata.chunkIndex (metadata c)) records ! Match.index b"
        using assms(3) by (simp add: sorted_wrt_iff_nth_less del: nth_map)
      with lt bl show "Metadata.chunkIndex (metadata (records ! Match.index a))
              < Metadata.chunkIndex (metadata (records ! Match.index b))"
        by simp
    qed
  qed
  then show ?thesis by (simp add: sorted_wrt_map)
qed

lemma exampleChunks_run: "chunkTranscript exampleTranscript 500 1 = Some exampleChunks"
  unfolding exampleChunks_def by (rule windowed_example)

text \<open>
  Claim C1. For every store, identifier, query embedding and \<^verbatim>\<open>topK >= 0\<close>, a search that
  returns gives at most \<^verbatim>\<open>topK\<close> matches, with scores in non-increasing order. The
  comparator looks at scores only and the sort is stable, so matches of equal score keep
  the order in which their records are stored: the results are the stored records at the
  positions of a list of matches ordered by \<open>before\<close> (higher score first, and among equal
  scores the lower position first). A collection is stored in ascending order of chunk
  index, as the data model has it (insertion order is chunk index order); in particular
  every store that \<^verbatim>\<open>storeChunks\<close> builds from the output of \<^verbatim>\<open>chunkTranscript\<close>, which
  is what both processing routes do, holds its records so, the chunker numbering its
  chunks from 0 upwards. On every such collection, any two matches with equal scores
  come in ascending chunk index.
\<close>

theorem searchSimilar_top_k:
  assumes "searchSimilar store vid queryEmbedding topK = Inr results" and "0 \<le> topK"
  shows "int (length results) \<le> topK \<and>
         sorted_wrt (\<lambda>a b. ScoredChunk.similarity a \<ge> ScoredChunk.similarity b) results \<and>
         (\<exists>matches.
            results = map (\<lambda>m. withSimilarity (getChunks store vid ! Match.index m)
                                                (Match.similarity m)) matches \<and>
            sorted_wrt before matches \<and>
            list_all (\<lambda>m. Match.index m < length (getChunks store vid)) matches) \<and>
         (sorted_wrt (<) (map (\<lambda>c. Metadata.chunkIndex (metadata c)) (getChunks store vid)) \<longrightarrow>
            sorted_wrt (\<lambda>a b. ScoredChunk.similarity a = ScoredChunk.similarity b \<longrightarrow>
                          Metadata.chunkIndex (metadata a) < Metadata.chunkIndex (metadata b))
              results) \<and>
         (chunkTranscript transcript targetWords overlapSegments = Some chunkList \<and>
          storeChunks store0 vid (map (withFrames framePathOf thumbnailPathOf) chunkList)
            embeddings = Inr store \<longrightarrow>
            sorted_wrt (\<lambda>a b. ScoredChunk.similarity a = ScoredChunk.similarity b \<longrightarrow>
                          Metadata.chunkIndex (metadata a) < Metadata.chunkIndex (metadata b))
              results)"
proof -
  from searchSimilar_matches[OF assms(1)] obtain matches where
    r: "results = map (\<lambda>m. withSimilarity (getChunks store vid ! Match.index m)
                                             (Match.similarity m)) matches"
    and b: "sorted_wrt before matches"
    and l: "list_all (\<lambda>m. Match.index m < length (getChunks store vid)) matches"
    by blast
  have len: "int (length results) \<le> topK"
    using assms
  proof (cases rule: searchSimilar_cases)
    case 1
    then show ?thesis using assms(2) by simp
  next
    case (2 ms)
    from findSimilarEmbeddings_Inr(3)[OF 2(2) assms(2)] show ?thesis by (simp add: 2(3))
  qed
  have "sorted_wrt (\<lambda>a b. Match.similarity a \<ge> Match.similarity b) matches"
    by (rule sorted_wrt_mono_rel[OF _ b]) (auto simp: before_def)
  then have desc: "sorted_wrt (\<lambda>a b. ScoredChunk.similarity a \<ge> ScoredChunk.similarity b) results"
    by (simp add: r sorted_wrt_map)
  have ties: "sorted_wrt (\<lambda>a b. ScoredChunk.similarity a = ScoredChunk.similarity b \<longrightarrow>
                          Metadata.chunkIndex (metadata a) < Metadata.chunkIndex (metadata b))
              results"
    if "sorted_wrt (<) (map (\<lambda>c. Metadata.chunkIndex (metadata c)) (getChunks store vid))"
    unfolding r using b l that by (rule ties_ascending)
  have pipe: "sorted_wrt (<) (map (\<lambda>c. Metadata.chunkIndex (metadata c)) (getChunks store vid))"
    if "chunkTranscript transcript targetWords overlapSegments = Some chunkList \<and>
          storeChunks store0 vid (map (withFrames framePathOf thumbnailPathOf) chunkList)
            embeddings = Inr store"
  proof -
    from that pipeline_chunk_indices[of transcript targetWords overlapSegments chunkList
        store0 vid framePathOf thumbnailPathOf embeddings store]
    have "map (\<lambda>c. Metadata.chunkIndex (metadata c)) (getChunks store vid) = [0..<length chunkList]"
      by blast
    then show ?thesis by (simp only: sorted_wrt_upt)
  qed
  from r b l have pos: "\<exists>matches.
            results = map (\<lambda>m. withSimilarity (getChunks store vid ! Match.index m)
                                                (Match.similarity m)) matches \<and>
            sorted_wrt before matches \<and>
            list_all (\<lambda>m. Match.index m < length (getChunks store vid)) matches"
    by blast
  from len desc pos ties pipe show ?thesis by blast
qed

theorem searchSimilar_top_k_witness:
  "chunkTranscript exampleTranscript 500 1 = Some exampleChunks \<and>
   storeChunks Map.empty ''v'' (map (withFrames noFrames noFrames) exampleChunks)
     [[1, 0], [0, 1], [1, 0]] = Inr pipelineStore \<and>
   searchSimilar pipelineStore ''v'' [1, 0] 2
     = Inr [withSimilarity (pipelineRecord 0 [1, 0]) 1, withSimilarity (pipelineRecord 2 [1, 0]) 1] \<and>
   (0::int) \<le> 2 \<and>
   int (length [withSimilarity (pipelineRecord 0 [1, 0]) 1,
                withSimilarity (pipelineRecord 2 [1, 0]) 1]) \<le> 2 \<and>
   ScoredChunk.similarity (withSimilarity (pipelineRecord 0 [1, 0]) 1)
     \<ge> ScoredChunk.similarity (withSimilarity (pipelineRecord 2 [1, 0]) 1) \<and>
   ScoredChunk.similarity (withSimilarity (pipelineRecord 0 [1, 0]) 1)
     = ScoredChunk.similarity (withSimilarity (pipelineRecord 2 [1, 0]) 1) \<and>
   Metadata.chunkIndex (metadata (withSimilarity (pipelineRecord 0 [1, 0]) 1))
     < Metadata.chunkIndex (metadata (withSimilarity (pipelineRecord 2 [1, 0]) 1))"
proof -
  have st: "storeChunks Map.empty ''v'' (map (withFrames noFrames noFrames) exampleChunks)
     [[1, 0], [0, 1], [1, 0]] = Inr pipelineStore"
    by (simp add: storeChunks_def pipelineStore_def pipelineRecord_def exampleChunks_def
        Let_def upt_rec)
  have run: "searchSimilar pipelineStore ''v'' [1, 0] 2
     = Inr [withSimilarity (pipelineRecord 0 [1, 0]) 1, withSimilarity (pipelineRecord 2 [1, 0]) 1]"
    by (simp add: pipelineStore_def pipelineRecord_def searchSimilar_def getChunks_def
      findSimilarEmbeddings_def cosineSimilarity_def magnitude_def dotProduct_def
      sortBy_def slice_def relIndex_def Let_def upt_rec)
  from searchSimilar_top_k[OF run, of exampleTranscript 500 1 exampleChunks Map.empty
      noFrames noFrames "[[1, 0], [0, 1], [1, 0]]"] exampleChunks_run st run
  show ?thesis by simp
qed

end
